theory Spec2Isabelle
  imports Complex_Main "HOL-Library.Word" "HOL-Library.Log_Nat"
begin

section \<open>JavaScript strings\<close>

text \<open>
  A JavaScript string is a sequence of UTF-16 code units. The text fields of the wizard
  hold whatever the user typed, so they are modelled as lists of 16-bit words; \<open>js\<close>
  embeds an ASCII literal of the source.
\<close>

type_synonym code_unit = "16 word"
type_synonym jsstring = "code_unit list"

definition js :: "string \<Rightarrow> jsstring" where
  "js = map of_char"

text \<open>
  \<open>String.prototype.trim\<close> removes, at both ends, the code units of the ECMAScript
  productions WhiteSpace (TAB, VT, FF, SP, NBSP, ZWNBSP and the Unicode space separators)
  and LineTerminator (LF, CR, LS, PS). All of them lie in the basic multilingual plane.
\<close>

definition isWhiteSpace :: "code_unit \<Rightarrow> bool" where
  "isWhiteSpace c =
     (c = 0x0009 \<or> c = 0x000A \<or> c = 0x000B \<or> c = 0x000C \<or> c = 0x000D \<or>
      c = 0x0020 \<or> c = 0x00A0 \<or> c = 0x1680 \<or> (0x2000 \<le> c \<and> c \<le> 0x200A) \<or>
      c = 0x2028 \<or> c = 0x2029 \<or> c = 0x202F \<or> c = 0x205F \<or> c = 0x3000 \<or>
      c = 0xFEFF)"

definition trim :: "jsstring \<Rightarrow> jsstring" where
  "trim s = rev (dropWhile isWhiteSpace (rev (dropWhile isWhiteSpace s)))"

text \<open>
  \<open>String.prototype.padStart(targetLength, padString)\<close>: the pad string is repeated and
  cut to the missing length; a string that is long enough, or an empty pad, changes nothing.
\<close>

definition padStart :: "nat \<Rightarrow> jsstring \<Rightarrow> jsstring \<Rightarrow> jsstring" where
  "padStart targetLength padString s =
     (if targetLength \<le> length s \<or> padString = [] then s
      else take (targetLength - length s)
             (concat (replicate (targetLength - length s) padString)) @ s)"

section \<open>The component state of \<open>Learncast\<close> (src/app/page.tsx)\<close>

text \<open>
  A \<open>File\<close> of the upload widget; the component reads only its name.
\<close>

record source_file =
  file_name :: jsstring
  file_size :: nat

text \<open>
  The \<open>audio\<close> element is outside the component. What the component does to it is
  recorded as the list of commands it issued; what it reads from it arrives as the
  argument of the media events.
\<close>

datatype audio_cmd =
    Play
  | Pause
  | SetCurrentTime real
  | SetPlaybackRate real

text \<open>
  One field per \<open>useState\<close> cell, with the initial values of the source. JavaScript
  numbers that hold times are modelled as reals (finite values only: NaN and the infinities
  are not represented). \<open>timers\<close> holds the pending \<open>setTimeout\<close> callbacks of
  \<open>handleGenerate\<close>, oldest first, each as the value of \<open>step\<close> that its closure
  captured. \<open>audioCmds\<close> is the trace of commands sent to the audio element.
\<close>

record learncast =
  step :: int
  sources :: "source_file list"
  urls :: jsstring
  analogies :: jsstring
  emphasis :: jsstring
  style :: jsstring
  plan :: jsstring
  showEmphasis :: bool
  isPlayingStingy :: bool
  isPlayingSigma :: bool
  isGenerating :: bool
  audioUrl :: jsstring
  isPlaying :: bool
  currentTime :: real
  duration :: real
  playbackRate :: real
  timers :: "int list"
  audioCmds :: "audio_cmd list"

definition init :: learncast where
  "init = \<lparr> step = 0, sources = [], urls = [], analogies = [], emphasis = [],
            style = [], plan = [], showEmphasis = False, isPlayingStingy = False,
            isPlayingSigma = False, isGenerating = False, audioUrl = [],
            isPlaying = False, currentTime = 0, duration = 0, playbackRate = 1,
            timers = [], audioCmds = [] \<rparr>"

text \<open>The titles of the \<open>steps\<close> array; its length is what the render guards use.\<close>

definition steps :: "jsstring list" where
  "steps = [js ''Welcome to LearnCast'', js ''Add Your Sources'',
            js ''Customize Your Podcast'', js ''Choose Your Style'',
            js ''Choose Your Plan'', js ''Generating Your Podcast'',
            js ''Your Generated Podcast'']"

text \<open>The \<open>value\<close> fields of \<open>podcastStyles\<close>, the items of the radio group.\<close>

definition podcastStyles :: "jsstring list" where
  "podcastStyles = [js ''casual'', js ''professional'', js ''educational'',
                    js ''entertaining'']"

text \<open>
  \<open>audioRef.current\<close> is the audio element of \<open>steps[6].content\<close>, which is in the
  tree exactly when step 6 is rendered; otherwise the ref is null.
\<close>

definition audioRef_current :: "learncast \<Rightarrow> bool" where
  "audioRef_current s = (step s = 6)"

section \<open>Handlers of the wizard\<close>

definition isStepComplete :: "learncast \<Rightarrow> int \<Rightarrow> bool" where
  "isStepComplete s stepIndex =
     (if stepIndex = 0 then True
      else if stepIndex = 1 then 0 < length (sources s) \<or> trim (urls s) \<noteq> []
      else if stepIndex = 2 then
        trim (analogies s) \<noteq> [] \<and> (\<not> showEmphasis s \<or> trim (emphasis s) \<noteq> [])
      else if stepIndex = 3 then style s \<noteq> []
      else if stepIndex = 4 then plan s \<noteq> []
      else False)"

text \<open>
  The blur listener of the analogies field. The effect that installs it runs again at every
  change of \<open>analogies\<close>, so an installed listener always sees the current value.
\<close>

definition handleAnalogiesBlur :: "learncast \<Rightarrow> learncast" where
  "handleAnalogiesBlur s =
     (if trim (analogies s) \<noteq> [] then s\<lparr>showEmphasis := True\<rparr> else s)"

text \<open>\<open>e.target.files\<close> is null or a file list.\<close>

definition handleFileUpload :: "source_file list option \<Rightarrow> learncast \<Rightarrow> learncast" where
  "handleFileUpload files s =
     (case files of None \<Rightarrow> s | Some fs \<Rightarrow> s\<lparr>sources := fs\<rparr>)"

text \<open>
  \<open>handleGenerate\<close> sets the flag and starts the ten-second timer. The timer's callback
  is a closure of the render in which the button was clicked: its \<open>step\<close> is the step of
  that render, not the step at the time the timer fires.
\<close>

definition handleGenerate :: "learncast \<Rightarrow> learncast" where
  "handleGenerate s = s\<lparr>isGenerating := True, timers := timers s @ [step s]\<rparr>"

definition generateTimeout :: "int \<Rightarrow> learncast \<Rightarrow> learncast" where
  "generateTimeout captured_step s =
     s\<lparr>isGenerating := False,
       audioUrl := js ''https://example.com/generated-podcast.mp3'',
       step := captured_step + 1\<rparr>"

text \<open>
  The footer with Previous and Next/Generate is rendered when
  \<open>step > 0 && step < steps.length - 2\<close>; the second button is disabled when
  \<open>!isStepComplete(step)\<close>, and a disabled button delivers no click.
\<close>

definition footer_rendered :: "learncast \<Rightarrow> bool" where
  "footer_rendered s = (0 < step s \<and> step s < int (length steps) - 2)"

definition goPrevious :: "learncast \<Rightarrow> learncast" where
  "goPrevious s =
     (if footer_rendered s then
        (if step s = 4 then s\<lparr>step := step s - 1, plan := []\<rparr>
         else s\<lparr>step := step s - 1\<rparr>)
      else s)"

definition goNext :: "learncast \<Rightarrow> learncast" where
  "goNext s =
     (if footer_rendered s \<and> step s < int (length steps) - 2 then
        (if \<not> isStepComplete s (step s) then s
         else if step s = 4 then handleGenerate s
         else s\<lparr>step := step s + 1\<rparr>)
      else s)"

section \<open>Handlers of the audio player\<close>

definition handlePlayPause :: "learncast \<Rightarrow> learncast" where
  "handlePlayPause s =
     (if audioRef_current s then
        s\<lparr>audioCmds := audioCmds s @ [if isPlaying s then Pause else Play],
          isPlaying := \<not> isPlaying s\<rparr>
      else s)"

definition handleTimeUpdate :: "real \<Rightarrow> learncast \<Rightarrow> learncast" where
  "handleTimeUpdate element_currentTime s =
     (if audioRef_current s then s\<lparr>currentTime := element_currentTime\<rparr> else s)"

definition handleLoadedMetadata :: "real \<Rightarrow> learncast \<Rightarrow> learncast" where
  "handleLoadedMetadata element_duration s =
     (if audioRef_current s then s\<lparr>duration := element_duration\<rparr> else s)"

definition handleSeek :: "real \<Rightarrow> learncast \<Rightarrow> learncast" where
  "handleSeek newTime s =
     (if audioRef_current s then
        s\<lparr>audioCmds := audioCmds s @ [SetCurrentTime newTime], currentTime := newTime\<rparr>
      else s)"

text \<open>
  The speed select offers four items; \<open>parseFloat\<close> of an item's value is its rate.
\<close>

datatype speed_item = Speed_0_5 | Speed_1 | Speed_1_5 | Speed_2

fun parseFloat_item :: "speed_item \<Rightarrow> real" where
  "parseFloat_item Speed_0_5 = 1 / 2"
| "parseFloat_item Speed_1 = 1"
| "parseFloat_item Speed_1_5 = 3 / 2"
| "parseFloat_item Speed_2 = 2"

definition handlePlaybackRateChange :: "speed_item \<Rightarrow> learncast \<Rightarrow> learncast" where
  "handlePlaybackRateChange newRate s =
     (let rate = parseFloat_item newRate in
      if audioRef_current s then
        s\<lparr>playbackRate := rate, audioCmds := audioCmds s @ [SetPlaybackRate rate]\<rparr>
      else s\<lparr>playbackRate := rate\<rparr>)"

section \<open>JavaScript numbers in the time display\<close>

text \<open>
  A JavaScript number is an IEEE 754 double: a finite value, an infinity or NaN. A finite
  double is carried as the real number it denotes. Negative zero is not kept apart from
  zero: it prints as \<open>0\<close>, is its own floor, and behaves like zero under \<open>/ 60\<close> and
  \<open>% 60\<close>.
\<close>

datatype jsnum = Finite real | PosInfinity | NegInfinity | NaN

text \<open>
  Rounding to the nearest double, ties to even. For a positive \<open>x\<close>, \<open>binade x\<close> is the
  exponent \<open>e\<close> with \<open>2^e \<le> x < 2^(e+1)\<close>, but not less than the least normal exponent
  \<open>-1022\<close>; the doubles of that binade are the multiples of \<open>ulp x = 2^(e-52)\<close>.
\<close>

definition binade :: "real \<Rightarrow> int" where
  "binade x =
     (if 1 \<le> x then bitlen \<lfloor>x\<rfloor> - 1
      else max (- 1022) (- bitlen (\<lceil>1 / x\<rceil> - 1)))"

definition ulp :: "real \<Rightarrow> real" where
  "ulp x = 2 powi (binade x - 52)"

definition round_even :: "real \<Rightarrow> int" where
  "round_even y =
     (let f = \<lfloor>y\<rfloor>; r = y - of_int f in
      if r < 1 / 2 then f
      else if 1 / 2 < r then f + 1
      else if even f then f else f + 1)"

definition nearest_double :: "real \<Rightarrow> real" where
  "nearest_double x =
     (if x = 0 then 0
      else sgn x * (of_int (round_even (\<bar>x\<bar> / ulp \<bar>x\<bar>)) * ulp \<bar>x\<bar>))"

text \<open>
  The result of an arithmetic operation whose exact value is \<open>x\<close>: the nearest double, or
  an infinity when that is out of range.
\<close>

definition to_double :: "real \<Rightarrow> jsnum" where
  "to_double x =
     (let r = nearest_double x in
      if 2 ^ 1024 \<le> \<bar>r\<bar> then (if 0 < r then PosInfinity else NegInfinity) else Finite r)"

text \<open>
  The operators \<open>/\<close> and \<open>%\<close> with a finite literal as right operand (the source has
  \<open>60\<close>; a literal \<open>0\<close> is positive zero). The quotient is rounded; the remainder has
  the sign of the dividend, the quotient being truncated towards zero, and is exact.
\<close>

definition js_div :: "jsnum \<Rightarrow> real \<Rightarrow> jsnum" where
  "js_div x y =
     (case x of
        NaN \<Rightarrow> NaN
      | PosInfinity \<Rightarrow> (if y < 0 then NegInfinity else PosInfinity)
      | NegInfinity \<Rightarrow> (if y < 0 then PosInfinity else NegInfinity)
      | Finite a \<Rightarrow>
          (if y = 0 then (if a = 0 then NaN else if 0 < a then PosInfinity else NegInfinity)
           else to_double (a / y)))"

definition js_rem :: "jsnum \<Rightarrow> real \<Rightarrow> jsnum" where
  "js_rem x y =
     (case x of
        Finite a \<Rightarrow>
          (if y = 0 then NaN
           else Finite (a - y * of_int (if 0 \<le> a / y then \<lfloor>a / y\<rfloor> else \<lceil>a / y\<rceil>)))
      | _ \<Rightarrow> NaN)"

definition Math_floor :: "jsnum \<Rightarrow> jsnum" where
  "Math_floor x = (case x of Finite a \<Rightarrow> Finite (of_int \<lfloor>a\<rfloor>) | _ \<Rightarrow> x)"

text \<open>
  \<open>Number.prototype.toString\<close>. NaN and the infinities print as their names. An integer
  of magnitude below \<open>2^53\<close> prints as its decimal digits, after a minus sign when it is
  negative. Every other finite number prints as the shortest digits that read back as the
  same double, in exponent notation from \<open>10^21\<close> on; that part of the runtime is the
  parameter \<open>print\<close>.
\<close>

fun digits :: "nat \<Rightarrow> jsstring" where
  "digits n =
     (if n < 10 then [of_nat (48 + n)]
      else digits (n div 10) @ [of_nat (48 + n mod 10)])"

definition number_toString :: "(real \<Rightarrow> jsstring) \<Rightarrow> jsnum \<Rightarrow> jsstring" where
  "number_toString print x =
     (case x of
        NaN \<Rightarrow> js ''NaN''
      | PosInfinity \<Rightarrow> js ''Infinity''
      | NegInfinity \<Rightarrow> js ''-Infinity''
      | Finite a \<Rightarrow>
          (if of_int \<lfloor>a\<rfloor> = a \<and> \<bar>a\<bar> < 2 ^ 53 then
             (if a < 0 then js ''-'' @ digits (nat (- \<lfloor>a\<rfloor>)) else digits (nat \<lfloor>a\<rfloor>))
           else print a))"

definition formatTime :: "(real \<Rightarrow> jsstring) \<Rightarrow> jsnum \<Rightarrow> jsstring" where
  "formatTime print time =
     (let minutes = Math_floor (js_div time 60);
          seconds = Math_floor (js_rem time 60)
      in number_toString print minutes @ js '':'' @
         padStart 2 (js ''0'') (number_toString print seconds))"

section \<open>Events of one session\<close>

text \<open>
  Every control of the page, with the condition under which it is rendered: the content of
  step \<open>i\<close> is in the tree when \<open>step = i\<close>, the emphasis field when \<open>showEmphasis\<close>
  holds as well. \<open>TimerFires\<close> runs the oldest pending callback of \<open>handleGenerate\<close>
  (all timers have the same delay). \<open>BlurAnalogies\<close> is a run of the installed blur
  listener.
\<close>

datatype event =
    StartLearning
  | FileUpload "source_file list option"
  | ChangeUrls jsstring
  | ChangeAnalogies jsstring
  | BlurAnalogies
  | ChangeEmphasis jsstring
  | ChooseStyle jsstring
  | ToggleSampleStingy
  | ToggleSampleSigma
  | SelectStingy
  | SelectSigma
  | Previous
  | Next
  | TimerFires
  | PlayPause
  | TimeUpdate real
  | LoadedMetadata real
  | Seek real
  | ChangeSpeed speed_item

fun fire :: "learncast \<Rightarrow> event \<Rightarrow> learncast" where
  "fire s StartLearning = (if step s = 0 then s\<lparr>step := 1\<rparr> else s)"
| "fire s (FileUpload files) = (if step s = 1 then handleFileUpload files s else s)"
| "fire s (ChangeUrls v) = (if step s = 1 then s\<lparr>urls := v\<rparr> else s)"
| "fire s (ChangeAnalogies v) = (if step s = 2 then s\<lparr>analogies := v\<rparr> else s)"
| "fire s BlurAnalogies = (if step s = 2 then handleAnalogiesBlur s else s)"
| "fire s (ChangeEmphasis v) =
     (if step s = 2 \<and> showEmphasis s then s\<lparr>emphasis := v\<rparr> else s)"
| "fire s (ChooseStyle v) =
     (if step s = 3 \<and> v \<in> set podcastStyles then s\<lparr>style := v\<rparr> else s)"
| "fire s ToggleSampleStingy =
     (if step s = 4 then s\<lparr>isPlayingStingy := \<not> isPlayingStingy s\<rparr> else s)"
| "fire s ToggleSampleSigma =
     (if step s = 4 then s\<lparr>isPlayingSigma := \<not> isPlayingSigma s\<rparr> else s)"
| "fire s SelectStingy = (if step s = 4 then s\<lparr>plan := js ''stingy''\<rparr> else s)"
| "fire s SelectSigma = (if step s = 4 then s\<lparr>plan := js ''sigma''\<rparr> else s)"
| "fire s Previous = goPrevious s"
| "fire s Next = goNext s"
| "fire s TimerFires =
     (case timers s of [] \<Rightarrow> s | c # cs \<Rightarrow> generateTimeout c (s\<lparr>timers := cs\<rparr>))"
| "fire s PlayPause = (if step s = 6 then handlePlayPause s else s)"
| "fire s (TimeUpdate t) = (if step s = 6 then handleTimeUpdate t s else s)"
| "fire s (LoadedMetadata d) = (if step s = 6 then handleLoadedMetadata d s else s)"
| "fire s (Seek t) = (if step s = 6 then handleSeek t s else s)"
| "fire s (ChangeSpeed r) = (if step s = 6 then handlePlaybackRateChange r s else s)"

definition run :: "learncast \<Rightarrow> event list \<Rightarrow> learncast" where
  "run s es = foldl fire s es"

section \<open>The proxy routes\<close>

text \<open>
  The two API handlers (src/pages/api/generate_podcast.js and the \<open>podcast_status\<close>
  handler) forward a request to the backend with \<open>fetch\<close>. The backend is the
  environment: a function from the outgoing request to what \<open>fetch\<close> and then
  \<open>response.json()\<close> do. \<open>fetch\<close> rejects only when no response arrives; a response
  of any status resolves. \<open>response.json()\<close> rejects when the body is not JSON
  (\<open>up_json\<close> is then \<open>None\<close>). Both rejections end in the \<open>catch\<close> block. The body
  that \<open>JSON.stringify\<close> serialises is carried as the JSON value itself.
\<close>

datatype json =
    JNull
  | JBool bool
  | JNum int
  | JStr jsstring
  | JArr "json list"
  | JObj "(jsstring \<times> json) list"

record api_request =
  req_method :: jsstring
  req_body :: json
  req_query_id :: jsstring

record outgoing =
  out_url :: jsstring
  out_method :: jsstring
  out_headers :: "(jsstring \<times> jsstring) list"
  out_body :: "json option"

datatype fetch_outcome =
    FetchRejects
  | FetchResolves (up_status: nat) (up_json: "json option")

datatype res_body = JsonBody json | TextBody jsstring

record api_response =
  res_status :: nat
  res_headers :: "(jsstring \<times> jsstring list) list"
  res_body :: res_body

text \<open>The request that each handler passes to \<open>fetch\<close>.\<close>

definition generate_fetch :: "api_request \<Rightarrow> outgoing" where
  "generate_fetch req =
     \<lparr> out_url = js ''http://localhost:8000/generate_podcast'',
       out_method = js ''POST'',
       out_headers = [(js ''Content-Type'', js ''application/json'')],
       out_body = Some (req_body req) \<rparr>"

definition status_fetch :: "api_request \<Rightarrow> outgoing" where
  "status_fetch req =
     \<lparr> out_url = js ''http://localhost:8000/podcast_status/'' @ req_query_id req,
       out_method = js ''GET'',
       out_headers = [],
       out_body = None \<rparr>"

definition error_body :: "string \<Rightarrow> res_body" where
  "error_body msg = JsonBody (JObj [(js ''error'', JStr (js msg))])"

definition generate_podcast_handler ::
  "(outgoing \<Rightarrow> fetch_outcome) \<Rightarrow> api_request \<Rightarrow> api_response" where
  "generate_podcast_handler upstream req =
     (if req_method req = js ''POST'' then
        (case upstream (generate_fetch req) of
           FetchRejects \<Rightarrow>
             \<lparr> res_status = 500, res_headers = [],
               res_body = error_body ''Failed to generate podcast'' \<rparr>
         | FetchResolves st None \<Rightarrow>
             \<lparr> res_status = 500, res_headers = [],
               res_body = error_body ''Failed to generate podcast'' \<rparr>
         | FetchResolves st (Some data) \<Rightarrow>
             \<lparr> res_status = 200, res_headers = [], res_body = JsonBody data \<rparr>)
      else
        \<lparr> res_status = 405, res_headers = [(js ''Allow'', [js ''POST''])],
          res_body = TextBody (js ''Method '' @ req_method req @ js '' Not Allowed'') \<rparr>)"

definition podcast_status_handler ::
  "(outgoing \<Rightarrow> fetch_outcome) \<Rightarrow> api_request \<Rightarrow> api_response" where
  "podcast_status_handler upstream req =
     (if req_method req = js ''GET'' then
        (case upstream (status_fetch req) of
           FetchRejects \<Rightarrow>
             \<lparr> res_status = 500, res_headers = [],
               res_body = error_body ''Failed to fetch podcast status'' \<rparr>
         | FetchResolves st None \<Rightarrow>
             \<lparr> res_status = 500, res_headers = [],
               res_body = error_body ''Failed to fetch podcast status'' \<rparr>
         | FetchResolves st (Some data) \<Rightarrow>
             \<lparr> res_status = 200, res_headers = [], res_body = JsonBody data \<rparr>)
      else
        \<lparr> res_status = 405, res_headers = [(js ''Allow'', [js ''GET''])],
          res_body = TextBody (js ''Method '' @ req_method req @ js '' Not Allowed'') \<rparr>)"

text \<open>A response is a success response when its status is in the range 200 to 299.\<close>

definition is_success :: "api_response \<Rightarrow> bool" where
  "is_success r = (200 \<le> res_status r \<and> res_status r < 300)"

section \<open>Notions used to state the properties\<close>

text \<open>Decimal digits and the number that a digit string denotes.\<close>

definition is_digit :: "code_unit \<Rightarrow> bool" where
  "is_digit c = (0x30 \<le> c \<and> c \<le> 0x39)"

definition decimal_value :: "jsstring \<Rightarrow> nat" where
  "decimal_value ds = foldl (\<lambda>a c. 10 * a + (unat c - 48)) 0 ds"

text \<open>
  The reals that are doubles: zero, and the numbers of magnitude below \<open>2^1024\<close> that are
  a multiple of the unit of their binade.
\<close>

definition is_double :: "real \<Rightarrow> bool" where
  "is_double x =
     (x = 0 \<or> (\<bar>x\<bar> < 2 ^ 1024 \<and> of_int \<lfloor>\<bar>x\<bar> / ulp \<bar>x\<bar>\<rfloor> = \<bar>x\<bar> / ulp \<bar>x\<bar>))"

text \<open>
  The steps that the wizard can be in, with every pending timer started at step 4.
\<close>

definition wizard_inv :: "learncast \<Rightarrow> bool" where
  "wizard_inv s = (0 \<le> step s \<and> step s \<le> 5 \<and> list_all (\<lambda>c. c = 4) (timers s))"

text \<open>
  A session that reaches the plan step with every earlier step completed and the plan
  chosen.
\<close>

definition at_plan :: learncast where
  "at_plan = run init [StartLearning, ChangeUrls (js ''http://x''), Next,
                       ChangeAnalogies (js ''a''), Next,
                       ChooseStyle (js ''casual''), Next, SelectStingy]"

text \<open>
  The same session continued: Generate, then Previous (which empties the plan) and Next
  again, while the timer of the generation is still pending.
\<close>

definition stale_timer :: learncast where
  "stale_timer = run at_plan [Next, Previous, Next]"

text \<open>A player on the result step whose metadata reported 120 seconds.\<close>

definition player_120 :: learncast where
  "player_120 = init\<lparr>step := 6, duration := 120\<rparr>"

text \<open>
  Two backends: one that cannot be reached, and one that answers every request with
  status 500 and a JSON body.
\<close>

definition upstream_unreachable :: "outgoing \<Rightarrow> fetch_outcome" where
  "upstream_unreachable rq = FetchRejects"

definition upstream_500_json :: "outgoing \<Rightarrow> fetch_outcome" where
  "upstream_500_json rq =
     FetchResolves 500 (Some (JObj [(js ''detail'', JStr (js ''Internal Server Error''))]))"

definition post_request :: api_request where
  "post_request =
     \<lparr> req_method = js ''POST'', req_body = JObj [(js ''plan'', JStr (js ''stingy''))],
       req_query_id = [] \<rparr>"

definition get_abc :: api_request where
  "get_abc = \<lparr> req_method = js ''GET'', req_body = JNull, req_query_id = js ''abc'' \<rparr>"

section \<open>Basic facts\<close>

lemmas handler_defs =
  handleAnalogiesBlur_def handleFileUpload_def goPrevious_def goNext_def handleGenerate_def
  generateTimeout_def handlePlayPause_def handleTimeUpdate_def handleLoadedMetadata_def
  handleSeek_def handlePlaybackRateChange_def footer_rendered_def audioRef_current_def

lemma length_steps: "int (length steps) = 7"
  by (simp add: steps_def)

text \<open>
  Trimming leaves nothing exactly when every code unit of the string is whitespace.
\<close>

lemma trim_eq_Nil_iff: "trim s = [] \<longleftrightarrow> (\<forall>c\<in>set s. isWhiteSpace c)"
proof (cases "dropWhile isWhiteSpace s")
  case Nil
  then have "\<forall>c\<in>set s. isWhiteSpace c" by simp
  moreover have "trim s = []" unfolding trim_def Nil by simp
  ultimately show ?thesis by simp
next
  case (Cons x xs)
  have nw: "\<not> isWhiteSpace x"
    using hd_dropWhile[of isWhiteSpace s] Cons by auto
  have mem: "x \<in> set s"
    using Cons set_dropWhileD[of x isWhiteSpace s] by simp
  have "dropWhile isWhiteSpace (rev (x # xs)) \<noteq> []"
    using nw by simp
  then have "trim s \<noteq> []" by (simp add: trim_def Cons)
  with nw mem show ?thesis by blast
qed

lemma run_append: "run s (es @ es') = run (run s es) es'"
  by (simp add: run_def)

lemma at_plan_eq:
  "at_plan = init\<lparr>step := 4, urls := js ''http://x'', analogies := js ''a'',
                 style := js ''casual'', plan := js ''stingy''\<rparr>"
  by (simp add: at_plan_def run_def init_def handler_defs length_steps isStepComplete_def
      js_def trim_def isWhiteSpace_def podcastStyles_def)

section \<open>Step completion\<close>

text \<open>
  Claim C2. For every wizard state, \<open>isStepComplete\<close> is true at step 0; at step 1 it is
  true iff the sources list is non-empty or \<open>urls\<close> is non-blank after trimming
  whitespace; at step 2 iff \<open>analogies\<close> is non-blank and \<open>showEmphasis\<close> is false or
  \<open>emphasis\<close> is non-blank; at step 3 iff \<open>style\<close> is non-empty; at step 4 iff
  \<open>plan\<close> is non-empty. A string is non-blank after trimming exactly when one of its code
  units is not whitespace.
\<close>

theorem isStepComplete_table:
  "isStepComplete s 0
   \<and> (isStepComplete s 1 \<longleftrightarrow> sources s \<noteq> [] \<or> trim (urls s) \<noteq> [])
   \<and> (isStepComplete s 2 \<longleftrightarrow>
        trim (analogies s) \<noteq> [] \<and> (showEmphasis s = False \<or> trim (emphasis s) \<noteq> []))
   \<and> (isStepComplete s 3 \<longleftrightarrow> style s \<noteq> [])
   \<and> (isStepComplete s 4 \<longleftrightarrow> plan s \<noteq> [])
   \<and> (trim x \<noteq> [] \<longleftrightarrow> (\<exists>c\<in>set x. \<not> isWhiteSpace c))"
  by (simp add: isStepComplete_def trim_eq_Nil_iff)

text \<open>
  At a state with the emphasis field shown and holding only a space, step 2 is incomplete
  although the analogies are given; with padded \<open>urls\<close> and no file, step 1 is complete.
\<close>

theorem isStepComplete_table_witness:
  "\<not> isStepComplete (init\<lparr>analogies := js ''a'', showEmphasis := True, emphasis := js '' ''\<rparr>) 2
   \<and> isStepComplete (init\<lparr>analogies := js ''a'', showEmphasis := True, emphasis := js ''b''\<rparr>) 2
   \<and> isStepComplete (init\<lparr>urls := js '' http://x ''\<rparr>) 1"
  using isStepComplete_table
          [of "init\<lparr>analogies := js ''a'', showEmphasis := True, emphasis := js '' ''\<rparr>"]
        isStepComplete_table
          [of "init\<lparr>analogies := js ''a'', showEmphasis := True, emphasis := js ''b''\<rparr>"]
        isStepComplete_table [of "init\<lparr>urls := js '' http://x ''\<rparr>"]
  by (simp add: init_def js_def trim_def isWhiteSpace_def)

section \<open>Navigation\<close>

text \<open>
  With an incomplete step in 1..4 the Next control is disabled and \<open>goNext\<close> changes
  nothing; no control of the page raises the step index from an incomplete step.
\<close>

lemma goNext_disabled:
  "1 \<le> step s \<Longrightarrow> step s \<le> 4 \<Longrightarrow> \<not> isStepComplete s (step s) \<Longrightarrow> goNext s = s"
  by (simp add: goNext_def)

lemma goNext_advances_when_complete:
  "step s < step (goNext s) \<Longrightarrow> isStepComplete s (step s)"
  by (simp add: goNext_def handleGenerate_def split: if_splits)

lemma controls_advance_when_complete:
  assumes "e \<noteq> TimerFires" and "step s < step (fire s e)"
  shows "isStepComplete s (step s)"
proof (cases e)
  case Next
  with assms show ?thesis by (simp add: goNext_advances_when_complete)
next
  case StartLearning
  with assms show ?thesis by (simp add: isStepComplete_def split: if_splits)
qed (use assms in \<open>auto simp add: handleAnalogiesBlur_def handleFileUpload_def
       goPrevious_def handlePlayPause_def handleTimeUpdate_def handleLoadedMetadata_def
       handleSeek_def handlePlaybackRateChange_def Let_def split: option.splits if_splits\<close>)

text \<open>
  Claim C3 says that \<open>goNext\<close> is a no-op on an incomplete step in 1..4 and, as the same
  property, that the step index advances only from a state whose current step is complete.
  On the session \<open>stale_timer\<close> the first half holds and the second fails: the wizard is
  at step 4 with an empty plan, so the step is incomplete and \<open>goNext\<close> changes nothing,
  but the timer started by the earlier Generate is still pending, and when it fires the step
  index advances to 5.
\<close>

theorem timer_advances_incomplete_step:
  "step stale_timer = 4 \<and> plan stale_timer = []
   \<and> \<not> isStepComplete stale_timer (step stale_timer)
   \<and> goNext stale_timer = stale_timer
   \<and> timers stale_timer = [4]
   \<and> step (fire stale_timer TimerFires) = 5"
proof -
  have s: "stale_timer =
             init\<lparr>step := 4, urls := js ''http://x'', analogies := js ''a'',
                  style := js ''casual'', plan := [], isGenerating := True, timers := [4]\<rparr>"
    by (simp add: stale_timer_def run_def at_plan_eq init_def handler_defs length_steps
        isStepComplete_def js_def)
  show ?thesis
    unfolding s
    by (simp add: init_def handler_defs length_steps isStepComplete_def js_def)
qed

theorem timer_advances_incomplete_step_witness:
  "step stale_timer < step (fire stale_timer TimerFires)"
proof -
  have a: "step stale_timer = 4"
    using timer_advances_incomplete_step by blast
  have b: "step (fire stale_timer TimerFires) = 5"
    using timer_advances_incomplete_step by blast
  show ?thesis unfolding a b by simp
qed

text \<open>
  Claim C7. For every wizard state at step 4, \<open>goPrevious\<close> sets the step index to 3 and
  resets \<open>plan\<close> to the empty string; nothing else changes.
\<close>

theorem goPrevious_resets_plan:
  "step s = 4 \<Longrightarrow>
     step (goPrevious s) = 3 \<and> plan (goPrevious s) = [] \<and> goPrevious s = s\<lparr>step := 3, plan := []\<rparr>"
  by (simp add: goPrevious_def footer_rendered_def length_steps)

theorem goPrevious_resets_plan_witness:
  "step at_plan = 4 \<and> plan at_plan = js ''stingy''
   \<and> step (goPrevious at_plan) = 3 \<and> plan (goPrevious at_plan) = []"
  using goPrevious_resets_plan [of at_plan]
  by (simp add: at_plan_eq init_def js_def)

section \<open>Uploads\<close>

text \<open>
  Claim C10. For every wizard state and every upload event with a non-null file list, the
  upload replaces the whole sources list with exactly the files of that event: the files
  of earlier uploads are discarded, not appended to.
\<close>

theorem handleFileUpload_replaces:
  "handleFileUpload (Some fs) s = s\<lparr>sources := fs\<rparr>
   \<and> sources (handleFileUpload (Some fs) s) = fs
   \<and> sources (handleFileUpload (Some fs') (handleFileUpload (Some fs) s)) = fs'
   \<and> sources (fire (fire (s\<lparr>step := 1\<rparr>) (FileUpload (Some fs))) (FileUpload (Some fs'))) = fs'"
  by (simp add: handleFileUpload_def)

theorem handleFileUpload_replaces_witness:
  "sources (handleFileUpload (Some [\<lparr>file_name = js ''b.txt'', file_size = 2\<rparr>])
      (handleFileUpload (Some [\<lparr>file_name = js ''a.pdf'', file_size = 1\<rparr>]) init))
   = [\<lparr>file_name = js ''b.txt'', file_size = 2\<rparr>]"
  by (rule handleFileUpload_replaces [THEN conjunct2, THEN conjunct2, THEN conjunct1])

section \<open>The emphasis latch\<close>

lemma fire_showEmphasis: "showEmphasis s \<Longrightarrow> showEmphasis (fire s e)"
  by (cases e) (simp_all add: handler_defs Let_def split: option.splits list.splits)

lemma run_showEmphasis: "showEmphasis s \<Longrightarrow> showEmphasis (run s es)"
  unfolding run_def by (induction es arbitrary: s) (simp_all add: fire_showEmphasis)

text \<open>
  Claim C4. Over every sequence of operations of one session, \<open>showEmphasis\<close> never goes
  from true back to false: if it holds after the events \<open>es\<close>, it holds after any
  continuation \<open>es @ es'\<close>, whatever the state the session started in; it becomes true when
  the analogies field loses focus while non-blank.
\<close>

theorem showEmphasis_latch:
  "(showEmphasis (run s es) \<longrightarrow> showEmphasis (run s (es @ es')))
   \<and> (showEmphasis s \<longrightarrow> showEmphasis (fire s e))
   \<and> (step s = 2 \<and> trim (analogies s) \<noteq> [] \<longrightarrow> showEmphasis (fire s BlurAnalogies))"
  by (simp add: run_append run_showEmphasis fire_showEmphasis handleAnalogiesBlur_def)

text \<open>
  A session that sets the latch, then empties the analogies, blurs again and walks back to
  the first step: the latch stays set.
\<close>

theorem showEmphasis_latch_witness:
  "\<not> showEmphasis (run init [StartLearning, ChangeUrls (js ''http://x''), Next,
                              ChangeAnalogies (js ''a'')])
   \<and> showEmphasis (run init [StartLearning, ChangeUrls (js ''http://x''), Next,
                              ChangeAnalogies (js ''a''), BlurAnalogies])
   \<and> showEmphasis (run init ([StartLearning, ChangeUrls (js ''http://x''), Next,
                               ChangeAnalogies (js ''a''), BlurAnalogies]
                              @ [ChangeAnalogies [], BlurAnalogies, Previous, Previous]))"
  using showEmphasis_latch
    [of init "[StartLearning, ChangeUrls (js ''http://x''), Next,
               ChangeAnalogies (js ''a''), BlurAnalogies]"
        "[ChangeAnalogies [], BlurAnalogies, Previous, Previous]"]
  by (simp add: run_def init_def handler_defs length_steps isStepComplete_def js_def trim_def
      isWhiteSpace_def)

section \<open>Generation\<close>

text \<open>
  What Generate does at any completed plan step: the step index stays at 4 while the timer
  is pending, and the callback of that timer, run in whatever state the session is in by
  then, leaves the wizard on step 5.
\<close>

lemma generate_from_plan_step:
  assumes "step s = 4" and "isStepComplete s 4"
  shows "goNext s = s\<lparr>isGenerating := True, timers := timers s @ [4]\<rparr>"
    and "step (goNext s) = 4"
    and "step (generateTimeout (last (timers (goNext s))) s') = 5"
  using assms by (simp_all add: goNext_def handleGenerate_def generateTimeout_def
      footer_rendered_def length_steps)

lemma fire_wizard_inv: "wizard_inv s \<Longrightarrow> wizard_inv (fire s e)"
  by (cases e)
     (auto simp add: wizard_inv_def handler_defs length_steps Let_def
        split: option.splits list.splits)

lemma run_wizard_inv: "wizard_inv s \<Longrightarrow> wizard_inv (run s es)"
  unfolding run_def by (induction es arbitrary: s) (simp_all add: fire_wizard_inv)

text \<open>No session reaches the result step, so the audio element is never mounted.\<close>

lemma result_step_unreachable: "step (run init es) \<noteq> 6"
proof -
  have "wizard_inv init" by (simp add: wizard_inv_def init_def)
  then have "wizard_inv (run init es)" by (rule run_wizard_inv)
  then show ?thesis by (simp add: wizard_inv_def)
qed

text \<open>
  Claim C1 says that from a completed step 4 Generate enters step 5 and that the completion
  of the generation stores the audio reference and sets the step index to 6. Evaluated on
  the session \<open>at_plan\<close>: after Generate the step index is still 4 (only \<open>isGenerating\<close>
  is set and one timer, holding the step 4 of its closure, is pending); when the timer
  fires the audio reference is stored and the step index becomes 5, not 6.
\<close>

theorem generate_ends_at_step_5:
  "step at_plan = 4 \<and> isStepComplete at_plan 4
   \<and> step (fire at_plan Next) = 4
   \<and> isGenerating (fire at_plan Next)
   \<and> timers (fire at_plan Next) = [4]
   \<and> step (fire (fire at_plan Next) TimerFires) = 5
   \<and> audioUrl (fire (fire at_plan Next) TimerFires)
       = js ''https://example.com/generated-podcast.mp3''"
  by (simp add: at_plan_eq init_def handler_defs length_steps isStepComplete_def js_def)

theorem generate_ends_at_step_5_witness:
  "step (fire at_plan Next) \<noteq> 5 \<and> step (fire (fire at_plan Next) TimerFires) \<noteq> 6"
proof -
  have a: "step (fire at_plan Next) = 4"
    using generate_ends_at_step_5 by blast
  have b: "step (fire (fire at_plan Next) TimerFires) = 5"
    using generate_ends_at_step_5 by blast
  show ?thesis unfolding a b by simp
qed

section \<open>Seeking\<close>

text \<open>
  Claim C5 says that \<open>seek(t)\<close> clamps \<open>t\<close> to \<open>[0, duration]\<close>, so that with duration
  120 \<open>seek(-5)\<close> gives \<open>currentTime = 0\<close> and \<open>seek(500)\<close> gives
  \<open>currentTime = 120\<close>. On the player with duration 120 \<open>handleSeek\<close> gives \<open>-5\<close>
  and \<open>500\<close>.
\<close>

theorem handleSeek_does_not_clamp:
  "audioRef_current player_120 \<and> duration player_120 = 120
   \<and> currentTime (handleSeek (- 5) player_120) \<noteq> 0
   \<and> currentTime (handleSeek 500 player_120) \<noteq> 120"
  by (simp add: player_120_def init_def handleSeek_def audioRef_current_def)

text \<open>
  Claim C5, amended. For every playback state with a mounted audio element and duration
  \<open>d\<close>, \<open>seek(t)\<close> sets the element's position and \<open>currentTime\<close> to \<open>t\<close> as
  given, without clamping: \<open>currentTime\<close> ends within \<open>[0, d]\<close> exactly when \<open>t\<close>
  is within it.
\<close>

theorem handleSeek_stores_argument:
  "audioRef_current s \<Longrightarrow>
     currentTime (handleSeek t s) = t
     \<and> audioCmds (handleSeek t s) = audioCmds s @ [SetCurrentTime t]
     \<and> duration (handleSeek t s) = duration s
     \<and> ((0 \<le> currentTime (handleSeek t s) \<and> currentTime (handleSeek t s) \<le> duration s)
          \<longleftrightarrow> (0 \<le> t \<and> t \<le> duration s))"
  by (simp add: handleSeek_def)

theorem handleSeek_stores_argument_witness:
  "audioRef_current player_120
   \<and> currentTime (handleSeek (- 5) player_120) = - 5
   \<and> currentTime (handleSeek 500 player_120) = 500
   \<and> currentTime (handleSeek 30 player_120) = 30
   \<and> audioCmds (handleSeek 500 player_120) = [SetCurrentTime 500]"
  using handleSeek_stores_argument [of player_120 "- 5"]
        handleSeek_stores_argument [of player_120 500]
        handleSeek_stores_argument [of player_120 30]
  by (simp add: player_120_def init_def audioRef_current_def)

section \<open>Time display\<close>

lemma digit_unat: "d < 10 \<Longrightarrow> unat (of_nat (48 + d) :: code_unit) = 48 + d"
  by (simp add: unat_of_nat del: of_nat_add)

lemma digit_is_digit: "d < 10 \<Longrightarrow> is_digit (of_nat (48 + d))"
  unfolding is_digit_def word_le_nat_alt
  by (simp add: digit_unat del: of_nat_add)

lemma digits_nonempty: "digits n \<noteq> []"
  by (subst digits.simps) simp

lemma digits_all_digit: "list_all is_digit (digits n)"
proof (induction n rule: digits.induct)
  case (1 n)
  show ?case
  proof (cases "n < 10")
    case True
    then show ?thesis
      by (subst digits.simps) (simp add: digit_is_digit del: of_nat_add)
  next
    case False
    have "n mod 10 < 10" by simp
    then have "is_digit (of_nat (48 + n mod 10))" by (rule digit_is_digit)
    with False 1 show ?thesis
      by (subst digits.simps) (simp del: of_nat_add)
  qed
qed

lemma decimal_value_snoc:
  "decimal_value (ds @ [c]) = 10 * decimal_value ds + (unat c - 48)"
  by (simp add: decimal_value_def)

lemma decimal_value_digits: "decimal_value (digits n) = n"
proof (induction n rule: digits.induct)
  case (1 n)
  show ?case
  proof (cases "n < 10")
    case True
    then show ?thesis
      by (subst digits.simps) (simp add: decimal_value_def digit_unat del: of_nat_add)
  next
    case False
    have "unat (of_nat (48 + n mod 10) :: code_unit) = 48 + n mod 10"
      by (rule digit_unat) simp
    with False 1 show ?thesis
      by (subst digits.simps) (simp add: decimal_value_snoc del: of_nat_add)
  qed
qed

lemma digits_no_leading_zero: "0 < n \<Longrightarrow> hd (digits n) \<noteq> 0x30"
proof (induction n rule: digits.induct)
  case (1 n)
  show ?case
  proof (cases "n < 10")
    case True
    have "unat (of_nat (48 + n) :: code_unit) = 48 + n"
      using True by (rule digit_unat)
    moreover have "unat (0x30 :: code_unit) = 48" by simp
    ultimately have "(of_nat (48 + n) :: code_unit) \<noteq> 0x30"
      using \<open>0 < n\<close> by (metis add_cancel_right_right less_numeral_extra(3))
    with True show ?thesis
      by (subst digits.simps) (simp del: of_nat_add)
  next
    case False
    then have "0 < n div 10" by simp
    with False 1 have "hd (digits (n div 10)) \<noteq> 0x30" by simp
    with False show ?thesis
      by (subst digits.simps) (simp add: digits_nonempty del: of_nat_add)
  qed
qed

lemma seconds_range:
  assumes "0 \<le> (t::real)"
  shows "0 \<le> \<lfloor>t - 60 * of_int \<lfloor>t / 60\<rfloor>\<rfloor>"
    and "\<lfloor>t - 60 * of_int \<lfloor>t / 60\<rfloor>\<rfloor> < 60"
proof -
  have a: "of_int \<lfloor>t / 60\<rfloor> \<le> t / 60" by (rule of_int_floor_le)
  have b: "t / 60 < of_int \<lfloor>t / 60\<rfloor> + 1" by linarith
  from a have "0 \<le> t - 60 * of_int \<lfloor>t / 60\<rfloor>" by simp
  then show "0 \<le> \<lfloor>t - 60 * of_int \<lfloor>t / 60\<rfloor>\<rfloor>" by simp
  from b have c: "t - 60 * of_int \<lfloor>t / 60\<rfloor> < 60" by linarith
  show "\<lfloor>t - 60 * of_int \<lfloor>t / 60\<rfloor>\<rfloor> < 60"
    using c by (simp add: floor_less_iff del: of_int_mult)
qed

lemma pad_two_digits:
  assumes "k < 60"
  shows "padStart 2 (js ''0'') (digits k) = [of_nat (48 + k div 10), of_nat (48 + k mod 10)]"
proof (cases "k < 10")
  case True
  then show ?thesis by (simp add: padStart_def js_def)
next
  case False
  with assms have "k div 10 < 10" by simp
  with False show ?thesis
    by (subst digits.simps, subst digits.simps) (simp add: padStart_def del: of_nat_add)
qed

subsection \<open>Rounding of the quotient\<close>

lemma round_even_ge: "of_int m \<le> y \<Longrightarrow> m \<le> round_even y"
proof -
  assume "of_int m \<le> y"
  then have "m \<le> \<lfloor>y\<rfloor>" by (simp add: le_floor_iff)
  then show ?thesis unfolding round_even_def Let_def by auto
qed

lemma round_even_upper: "of_int (round_even y) \<le> y + 1 / 2"
  unfolding round_even_def Let_def by (auto; linarith)

lemma round_even_less: "y < of_int M - 1 / 2 \<Longrightarrow> round_even y < M"
proof -
  assume a: "y < of_int M - 1 / 2"
  have "of_int (round_even y) \<le> y + 1 / 2" by (rule round_even_upper)
  with a have "(of_int (round_even y) :: real) < of_int M" by linarith
  then show ?thesis by simp
qed

text \<open>The binade of a number from 1 on.\<close>

lemma binade_ge_1:
  assumes "1 \<le> x"
  shows "0 \<le> binade x"
    and "2 ^ nat (binade x) \<le> x"
    and "x < 2 ^ nat (binade x + 1)"
proof -
  have pos: "0 < \<lfloor>x\<rfloor>" using assms by linarith
  have b: "2 ^ nat (bitlen \<lfloor>x\<rfloor> - 1) \<le> \<lfloor>x\<rfloor>" "\<lfloor>x\<rfloor> < 2 ^ nat (bitlen \<lfloor>x\<rfloor>)"
    using bitlen_bounds[OF pos] by simp_all
  have l1: "1 \<le> bitlen \<lfloor>x\<rfloor>" using pos by (simp add: bitlen_alt_def)
  have e: "binade x = bitlen \<lfloor>x\<rfloor> - 1" using assms by (simp add: binade_def)
  show "0 \<le> binade x" using l1 e by simp
  have "(2::real) ^ nat (binade x) = of_int (2 ^ nat (bitlen \<lfloor>x\<rfloor> - 1))"
    unfolding e by simp
  also have "\<dots> \<le> of_int \<lfloor>x\<rfloor>" using b(1) by (simp only: of_int_le_iff)
  also have "\<dots> \<le> x" by simp
  finally show "2 ^ nat (binade x) \<le> x" .
  have n: "nat (binade x + 1) = nat (bitlen \<lfloor>x\<rfloor>)" unfolding e by simp
  have "x < of_int (2 ^ nat (bitlen \<lfloor>x\<rfloor>))"
    using b(2) by (simp only: floor_less_iff)
  then show "x < 2 ^ nat (binade x + 1)" unfolding n by simp
qed

lemma ulp_ge_1:
  assumes "1 \<le> x" "x < 2 ^ 53"
  shows "binade x \<le> 52" and "ulp x = 1 / 2 ^ nat (52 - binade x)"
proof -
  have h: "(2::real) ^ nat (binade x) < 2 ^ 53"
    using binade_ge_1(2)[OF assms(1)] assms(2) by linarith
  have "nat (binade x) < 53"
    by (rule power_less_imp_less_exp[of "2::real"], simp, rule h)
  then show le: "binade x \<le> 52" by simp
  have nn: "0 \<le> binade x" using assms(1) by (rule binade_ge_1)
  show "ulp x = 1 / 2 ^ nat (52 - binade x)"
  proof (cases "binade x = 52")
    case True
    then show ?thesis by (simp add: ulp_def)
  next
    case False
    with le have "binade x - 52 < 0" by simp
    then show ?thesis
      by (simp add: ulp_def power_int_def power_inverse nat_diff_distrib field_simps)
  qed
qed

lemma binade_less_1:
  assumes "0 < x" "x < 1"
  shows "binade x \<le> - 1"
proof -
  have "1 < 1 / x" using assms by simp
  then have "2 \<le> \<lceil>1 / x\<rceil>" by linarith
  then have "0 < \<lceil>1 / x\<rceil> - 1" by simp
  then have "1 \<le> bitlen (\<lceil>1 / x\<rceil> - 1)" by (simp add: bitlen_alt_def)
  then show ?thesis using assms by (simp add: binade_def)
qed

lemma ulp_pos: "0 < ulp x"
  by (simp add: ulp_def)

lemma nearest_double_pos: "0 < x \<Longrightarrow> nearest_double x = of_int (round_even (x / ulp x)) * ulp x"
  by (simp add: nearest_double_def)

text \<open>
  The arithmetic core: a multiple \<open>t\<close> of \<open>1 / J\<close> below \<open>60 * N\<close> stays so far below
  that its sixtieth, on the grid \<open>1 / (32 * J)\<close>, is not rounded up to \<open>N\<close>.
\<close>

lemma sixtieth_not_rounded_up:
  assumes tJ: "t * of_int j = of_int w"
    and j: "0 < j"
    and lt: "t < 60 * of_int N"
  shows "round_even (t / 60 * (32 * of_int j)) < N * (32 * j)"
proof -
  have "of_int w < (of_int (60 * N * j) :: real)"
    using lt j tJ[symmetric] by (simp add: mult.commute mult.left_commute)
  then have "w < 60 * N * j" by (simp only: of_int_less_iff)
  then have "w + 1 \<le> 60 * N * j" by simp
  then have "(of_int (w + 1) :: real) \<le> of_int (60 * N * j)" by (simp only: of_int_le_iff)
  then have b: "t * of_int j + 1 \<le> 60 * of_int N * of_int j"
    using tJ by simp
  have "t / 60 * (32 * of_int j) = 8 / 15 * (t * of_int j)" by simp
  also have "\<dots> \<le> 8 / 15 * (60 * of_int N * of_int j - 1)" using b by simp
  also have "\<dots> < of_int (N * (32 * j)) - 1 / 2" by simp
  finally show ?thesis by (rule round_even_less)
qed

lemma floor_nearest_sixtieth_large:
  assumes d: "is_double t" and lo: "60 \<le> t" and hi: "t < 2 ^ 53"
  shows "\<lfloor>nearest_double (t / 60)\<rfloor> = \<lfloor>t / 60\<rfloor>"
proof -
  define q where "q = t / 60"
  define e where "e = binade q"
  define n where "n = \<lfloor>q\<rfloor>"
  have q1: "1 \<le> q" using lo by (simp add: q_def)
  have q53: "q < 2 ^ 53" using hi lo by (simp add: q_def)
  have t1: "1 \<le> t" using lo by simp
  have e0: "0 \<le> e" unfolding e_def using q1 by (rule binade_ge_1)
  have elo: "2 ^ nat e \<le> q" unfolding e_def using q1 by (rule binade_ge_1)
  have bt52: "binade t \<le> 52" using t1 hi by (rule ulp_ge_1)
  have bt0: "0 \<le> binade t" using t1 by (rule binade_ge_1)
  have "(2::real) ^ (nat e + 5) = 32 * 2 ^ nat e" by (simp add: power_add)
  also have "\<dots> \<le> 32 * q" using elo by simp
  also have "\<dots> \<le> t" using lo by (simp add: q_def)
  also have "\<dots> < 2 ^ nat (binade t + 1)" using t1 by (rule binade_ge_1)
  finally have "nat e + 5 < nat (binade t + 1)"
    by (rule power_less_imp_less_exp[of "2::real", rotated]) simp
  then have e5: "e + 5 \<le> binade t" using e0 bt0 by linarith
  have e47: "e \<le> 47" using e5 bt52 by simp
  have ulpq: "ulp q = 1 / 2 ^ nat (52 - e)"
    unfolding e_def using q1 q53 by (rule ulp_ge_1)
  have ulpt: "ulp t = 1 / 2 ^ nat (52 - binade t)" using t1 hi by (rule ulp_ge_1)
  define j :: int where "j = 2 ^ nat (47 - e)"
  have jpos: "0 < j" by (simp add: j_def)
  have K: "(2::real) ^ nat (52 - e) = 32 * of_int j"
  proof -
    have "nat (52 - e) = 5 + nat (47 - e)" using e47 by simp
    then show ?thesis by (simp add: j_def power_add)
  qed
  obtain z where z: "t * 2 ^ nat (52 - binade t) = of_int z"
  proof -
    have "t \<noteq> 0" using t1 by simp
    with d have "of_int \<lfloor>\<bar>t\<bar> / ulp \<bar>t\<bar>\<rfloor> = \<bar>t\<bar> / ulp \<bar>t\<bar>" by (simp add: is_double_def)
    then have "of_int \<lfloor>t / ulp t\<rfloor> = t * 2 ^ nat (52 - binade t)"
      using t1 by (simp add: ulpt)
    then show ?thesis using that by metis
  qed
  have split: "nat (47 - e) = nat (52 - binade t) + nat (binade t - e - 5)"
    using e5 bt52 by simp
  have tj: "t * of_int j = of_int (z * 2 ^ nat (binade t - e - 5))"
    unfolding j_def split power_add using z by simp
  have lt: "t < 60 * of_int (n + 1)"
  proof -
    have "q < of_int n + 1" unfolding n_def by linarith
    then show ?thesis by (simp add: q_def)
  qed
  have up: "round_even (q * (32 * of_int j)) < (n + 1) * (32 * j)"
    unfolding q_def using tj jpos lt by (rule sixtieth_not_rounded_up)
  have low: "n * (32 * j) \<le> round_even (q * (32 * of_int j))"
  proof (rule round_even_ge)
    have "of_int n \<le> q" unfolding n_def by simp
    then show "of_int (n * (32 * j)) \<le> q * (32 * of_int j)" using jpos by simp
  qed
  have flq: "nearest_double q = of_int (round_even (q * (32 * of_int j))) / (32 * of_int j)"
    using q1 by (simp add: nearest_double_pos ulpq K)
  have jr: "0 < (32 * of_int j :: real)" using jpos by simp
  have a: "of_int n \<le> nearest_double q"
  proof -
    have "(of_int (n * (32 * j)) :: real) \<le> of_int (round_even (q * (32 * of_int j)))"
      using low by (simp only: of_int_le_iff)
    then show ?thesis unfolding flq using jr by (simp add: pos_le_divide_eq)
  qed
  have b: "nearest_double q < of_int n + 1"
  proof -
    have "(of_int (round_even (q * (32 * of_int j))) :: real) < of_int ((n + 1) * (32 * j))"
      using up by (simp only: of_int_less_iff)
    then show ?thesis unfolding flq using jr by (simp add: pos_divide_less_eq)
  qed
  from a b have "\<lfloor>nearest_double q\<rfloor> = n" by linarith
  then show ?thesis by (simp add: q_def n_def)
qed

lemma nearest_double_nonneg: "0 \<le> x \<Longrightarrow> 0 \<le> nearest_double x"
proof (cases "x = 0")
  case True
  then show ?thesis by (simp add: nearest_double_def)
next
  case False
  assume "0 \<le> x"
  with False have x: "0 < x" by simp
  have "0 \<le> x / ulp x" using x ulp_pos[of x] by simp
  then have "of_int 0 \<le> x / ulp x" by simp
  then have "0 \<le> round_even (x / ulp x)" by (rule round_even_ge)
  then show ?thesis using x ulp_pos[of x] by (simp add: nearest_double_pos)
qed

lemma nearest_double_sixtieth_small:
  assumes "0 < t" "t \<le> 30"
  shows "nearest_double (t / 60) < 1"
proof -
  define q where "q = t / 60"
  have q0: "0 < q" and qh: "q \<le> 1 / 2" using assms by (simp_all add: q_def)
  have "binade q \<le> - 1" using q0 qh by (intro binade_less_1) simp_all
  then have "binade q - 52 < 0" by simp
  then have "ulp q = (1 / 2) ^ nat (52 - binade q)" and "0 < nat (52 - binade q)"
    unfolding ulp_def by (simp_all add: power_int_def)
  then have u1: "ulp q < 1"
    using power_strict_decreasing[of 0 "nat (52 - binade q)" "1 / 2 :: real"] by simp
  have "of_int (round_even (q / ulp q)) \<le> q / ulp q + 1 / 2"
    by (rule round_even_upper)
  then have "of_int (round_even (q / ulp q)) * ulp q \<le> (q / ulp q + 1 / 2) * ulp q"
    using ulp_pos[of q] by (simp only: mult_le_cancel_right_pos)
  moreover have "(q / ulp q + 1 / 2) * ulp q = q + ulp q / 2"
    using ulp_pos[of q] by (simp add: field_simps)
  moreover have "nearest_double q = of_int (round_even (q / ulp q)) * ulp q"
    using q0 by (rule nearest_double_pos)
  ultimately have "nearest_double q \<le> q + ulp q / 2" by simp
  then show ?thesis using qh u1 unfolding q_def by linarith
qed

lemma nearest_double_sixtieth_below_1:
  assumes d: "is_double t" and lo: "30 < t" and hi: "t < 60"
  shows "nearest_double (t / 60) < 1"
proof -
  define q where "q = t / 60"
  have q0: "0 < q" and ql: "1 / 2 < q" and q1: "q < 1" using lo hi by (simp_all add: q_def)
  have "1 < 1 / q" "1 / q < 2" using q0 ql q1 by (simp_all add: field_simps)
  then have "\<lceil>1 / q\<rceil> = 2" by linarith
  then have bq: "binade q = - 1" using q1 by (simp add: binade_def bitlen_alt_def)
  have ulpq: "ulp q = 1 / (32 * of_int (2 ^ 48))"
    by (simp add: ulp_def bq power_int_minus field_simps)
  have t1: "1 \<le> t" using lo by simp
  have t53: "t < 2 ^ 53" using hi by simp
  have bt52: "binade t \<le> 52" using t1 t53 by (rule ulp_ge_1)
  have "(2::real) ^ 4 < t" using lo by simp
  also have "\<dots> < 2 ^ nat (binade t + 1)" using t1 by (rule binade_ge_1)
  finally have "4 < nat (binade t + 1)"
    by (rule power_less_imp_less_exp[of "2::real", rotated]) simp
  then have bt4: "4 \<le> binade t" by linarith
  have ulpt: "ulp t = 1 / 2 ^ nat (52 - binade t)" using t1 t53 by (rule ulp_ge_1)
  obtain z where z: "t * 2 ^ nat (52 - binade t) = of_int z"
  proof -
    have "t \<noteq> 0" using t1 by simp
    with d have "of_int \<lfloor>\<bar>t\<bar> / ulp \<bar>t\<bar>\<rfloor> = \<bar>t\<bar> / ulp \<bar>t\<bar>" by (simp add: is_double_def)
    then have "of_int \<lfloor>t / ulp t\<rfloor> = t * 2 ^ nat (52 - binade t)"
      using t1 by (simp add: ulpt)
    then show ?thesis using that by metis
  qed
  have split: "(48::nat) = nat (52 - binade t) + nat (binade t - 4)"
    using bt4 bt52 by simp
  have "t * of_int (2 ^ 48) = t * 2 ^ (nat (52 - binade t) + nat (binade t - 4))"
    using split by simp
  also have "\<dots> = of_int (z * 2 ^ nat (binade t - 4))"
    unfolding power_add using z by simp
  finally have tj: "t * of_int (2 ^ 48) = of_int (z * 2 ^ nat (binade t - 4))" .
  have lt: "t < 60 * of_int 1" using hi by simp
  have up: "round_even (q * (32 * of_int (2 ^ 48))) < 1 * (32 * 2 ^ 48)"
    unfolding q_def using tj _ lt by (rule sixtieth_not_rounded_up) simp
  then have "(of_int (round_even (q * (32 * of_int (2 ^ 48)))) :: real) < of_int (1 * (32 * 2 ^ 48))"
    by (simp only: of_int_less_iff)
  then have "nearest_double q < 1"
    using q0 by (simp add: nearest_double_pos ulpq)
  then show ?thesis by (simp add: q_def)
qed

text \<open>
  On doubles from 0 to below \<open>2^53\<close> the rounding of the quotient by 60 does not change
  its floor.
\<close>

lemma floor_nearest_sixtieth:
  assumes d: "is_double t" and lo: "0 \<le> t" and hi: "t < 2 ^ 53"
  shows "\<lfloor>nearest_double (t / 60)\<rfloor> = \<lfloor>t / 60\<rfloor>"
proof -
  consider "t = 0" | "0 < t" "t \<le> 30" | "30 < t" "t < 60" | "60 \<le> t"
    using lo by linarith
  then show ?thesis
  proof cases
    case 1
    then show ?thesis by (simp add: nearest_double_def)
  next
    case 2
    have "0 \<le> nearest_double (t / 60)" using lo by (intro nearest_double_nonneg) simp
    moreover have "nearest_double (t / 60) < 1" using 2 by (rule nearest_double_sixtieth_small)
    ultimately have "\<lfloor>nearest_double (t / 60)\<rfloor> = 0" by linarith
    moreover have "\<lfloor>t / 60\<rfloor> = 0" using 2 by (simp add: floor_eq_iff)
    ultimately show ?thesis by simp
  next
    case 3
    have "0 \<le> nearest_double (t / 60)" using lo by (intro nearest_double_nonneg) simp
    moreover have "nearest_double (t / 60) < 1" using d 3 by (rule nearest_double_sixtieth_below_1)
    ultimately have "\<lfloor>nearest_double (t / 60)\<rfloor> = 0" by linarith
    moreover have "\<lfloor>t / 60\<rfloor> = 0" using 3 by (simp add: floor_eq_iff)
    ultimately show ?thesis by simp
  next
    case 4
    with d hi show ?thesis by (intro floor_nearest_sixtieth_large)
  qed
qed

subsection \<open>The formatted string\<close>

lemma minutes_of_double:
  assumes "is_double t" "0 \<le> t" "t < 2 ^ 53"
  shows "Math_floor (js_div (Finite t) 60) = Finite (of_int \<lfloor>t / 60\<rfloor>)"
proof -
  have fl: "\<lfloor>nearest_double (t / 60)\<rfloor> = \<lfloor>t / 60\<rfloor>"
    using assms by (rule floor_nearest_sixtieth)
  have nn: "0 \<le> nearest_double (t / 60)"
    using assms(2) by (intro nearest_double_nonneg) simp
  have "nearest_double (t / 60) < of_int \<lfloor>t / 60\<rfloor> + 1" using fl by linarith
  moreover have "of_int \<lfloor>t / 60\<rfloor> \<le> t / 60" by (rule of_int_floor_le)
  ultimately have "nearest_double (t / 60) < 2 ^ 53 + 1" using assms(2,3) by linarith
  also have "\<dots> < (2::real) ^ 1024"
  proof -
    have "(2::real) ^ 53 + 1 < 2 ^ 54" by simp
    also have "\<dots> \<le> (2::real) ^ 1024"
      by (rule power_increasing) simp_all
    finally show ?thesis .
  qed
  finally have "\<bar>nearest_double (t / 60)\<bar> < 2 ^ 1024" using nn by simp
  then have "js_div (Finite t) 60 = Finite (nearest_double (t / 60))"
    by (simp add: js_div_def to_double_def Let_def del: power_increasing_iff)
  then show ?thesis by (simp add: Math_floor_def fl)
qed

lemma seconds_of_nonneg:
  assumes "0 \<le> t"
  shows "Math_floor (js_rem (Finite t) 60) = Finite (of_int \<lfloor>t - 60 * of_int \<lfloor>t / 60\<rfloor>\<rfloor>)"
  using assms by (simp add: Math_floor_def js_rem_def)

lemma toString_small_nat:
  assumes "0 \<le> k" "of_int k < (2::real) ^ 53"
  shows "number_toString print (Finite (of_int k)) = digits (nat k)"
  using assms by (simp add: number_toString_def)

lemma formatTime_double:
  assumes "is_double t" "0 \<le> t" "t < 2 ^ 53"
  shows "formatTime print (Finite t) =
           digits (nat \<lfloor>t / 60\<rfloor>) @ js '':'' @
           [of_nat (48 + nat \<lfloor>t - 60 * of_int \<lfloor>t / 60\<rfloor>\<rfloor> div 10),
            of_nat (48 + nat \<lfloor>t - 60 * of_int \<lfloor>t / 60\<rfloor>\<rfloor> mod 10)]"
proof -
  have m0: "0 \<le> \<lfloor>t / 60\<rfloor>" using assms(2) by simp
  have "of_int \<lfloor>t / 60\<rfloor> \<le> t / 60" by (rule of_int_floor_le)
  then have m1: "of_int \<lfloor>t / 60\<rfloor> < (2::real) ^ 53" using assms(2,3) by linarith
  have s0: "0 \<le> \<lfloor>t - 60 * of_int \<lfloor>t / 60\<rfloor>\<rfloor>" using assms(2) by (rule seconds_range)
  have s60: "\<lfloor>t - 60 * of_int \<lfloor>t / 60\<rfloor>\<rfloor> < 60" using assms(2) by (rule seconds_range)
  have s1: "nat \<lfloor>t - 60 * of_int \<lfloor>t / 60\<rfloor>\<rfloor> < 60" using s60 s0 by linarith
  have s2: "of_int \<lfloor>t - 60 * of_int \<lfloor>t / 60\<rfloor>\<rfloor> < (2::real) ^ 53"
  proof -
    have "(of_int \<lfloor>t - 60 * of_int \<lfloor>t / 60\<rfloor>\<rfloor> :: real) < of_int 60"
      using s60 by (simp only: of_int_less_iff)
    then show ?thesis by simp
  qed
  show ?thesis
    unfolding formatTime_def Let_def minutes_of_double[OF assms] seconds_of_nonneg[OF assms(2)]
      toString_small_nat[OF m0 m1] toString_small_nat[OF s0 s2] pad_two_digits[OF s1]
    by (rule refl)
qed

lemma is_double_examples: "is_double 0" "is_double 65" "is_double 599"
  by (simp add: is_double_def) code_simp+

text \<open>
  Claim C6 says that for every non-negative number of seconds \<open>t\<close> the result is
  \<open>M:SS\<close> with minutes the floor of \<open>t / 60\<close> and two digits of seconds. The duration
  of a stream is \<open>Infinity\<close>, and there the result is \<open>Infinity:NaN\<close>, whatever the
  runtime prints for other numbers. At the double \<open>10^19\<close> the quotient is rounded before
  the floor is taken: the minutes are 166666666666666656, not the floor 166666666666666666.
\<close>

theorem formatTime_fails_on_large_numbers:
  "(\<forall>print. formatTime print PosInfinity = js ''Infinity:NaN'')
   \<and> is_double (10 ^ 19)
   \<and> Math_floor (js_div (Finite (10 ^ 19)) 60) = Finite 166666666666666656
   \<and> \<lfloor>(10 ^ 19 :: real) / 60\<rfloor> = 166666666666666666"
proof -
  have a: "\<forall>print. formatTime print PosInfinity = js ''Infinity:NaN''"
    by (simp add: formatTime_def js_div_def js_rem_def Math_floor_def number_toString_def
        padStart_def js_def)
  have b: "is_double (10 ^ 19)" by code_simp
  have c: "Math_floor (js_div (Finite (10 ^ 19)) 60) = Finite 166666666666666656"
    by code_simp
  have d: "\<lfloor>(10 ^ 19 :: real) / 60\<rfloor> = 166666666666666666"
    by (simp add: floor_eq_iff)
  from a b c d show ?thesis by blast
qed

text \<open>
  Claim C6, amended. For every number of seconds \<open>t\<close> that is a double with
  \<open>0 \<le> t < 2^53\<close>, with \<open>m\<close> the floor of \<open>t / 60\<close> and \<open>sec\<close> the floor of
  \<open>t mod 60\<close> (that is, of \<open>t - 60 * m\<close>), \<open>formatTime t\<close> is the decimal numeral of
  \<open>m\<close>, a colon, and the two decimal digits of \<open>sec\<close>, which is below 60. The minutes
  are unpadded: the numeral consists of digits, denotes \<open>m\<close>, and starts with a zero only
  when \<open>m\<close> is 0. In particular \<open>formatTime 0 = "0:00"\<close>, \<open>formatTime 65 = "1:05"\<close>
  and \<open>formatTime 599 = "9:59"\<close>.
\<close>

theorem formatTime_M_SS:
  assumes "is_double t" and "0 \<le> t" and "t < 2 ^ 53"
  shows "(let m = nat \<lfloor>t / 60\<rfloor>; sec = nat \<lfloor>t - 60 * real m\<rfloor> in
            sec < 60
            \<and> formatTime print (Finite t) =
                digits m @ js '':'' @ [of_nat (48 + sec div 10), of_nat (48 + sec mod 10)]
            \<and> list_all is_digit (digits m)
            \<and> decimal_value (digits m) = m
            \<and> (hd (digits m) = 0x30) = (m = 0))
         \<and> formatTime print (Finite 0) = js ''0:00''
         \<and> formatTime print (Finite 65) = js ''1:05''
         \<and> formatTime print (Finite 599) = js ''9:59''"
proof -
  have m: "real (nat \<lfloor>t / 60\<rfloor>) = of_int \<lfloor>t / 60\<rfloor>"
    using assms(2) by simp
  have s0: "0 \<le> \<lfloor>t - 60 * of_int \<lfloor>t / 60\<rfloor>\<rfloor>" using assms(2) by (rule seconds_range)
  have s1: "nat \<lfloor>t - 60 * of_int \<lfloor>t / 60\<rfloor>\<rfloor> < 60"
    using seconds_range(2)[OF assms(2)] s0 by linarith
  have z: "(hd (digits (nat \<lfloor>t / 60\<rfloor>)) = 0x30) = (nat \<lfloor>t / 60\<rfloor> = 0)"
  proof (cases "nat \<lfloor>t / 60\<rfloor> = 0")
    case True
    then show ?thesis by simp
  next
    case False
    then show ?thesis using digits_no_leading_zero[of "nat \<lfloor>t / 60\<rfloor>"] by simp
  qed
  have general:
    "(let m = nat \<lfloor>t / 60\<rfloor>; sec = nat \<lfloor>t - 60 * real m\<rfloor> in
        sec < 60
        \<and> formatTime print (Finite t) =
            digits m @ js '':'' @ [of_nat (48 + sec div 10), of_nat (48 + sec mod 10)]
        \<and> list_all is_digit (digits m)
        \<and> decimal_value (digits m) = m
        \<and> (hd (digits m) = 0x30) = (m = 0))"
    unfolding Let_def m
    using s1 formatTime_double[OF assms] digits_all_digit decimal_value_digits z
    by blast
  have e0: "formatTime print (Finite 0) = js ''0:00''"
    by (simp add: formatTime_double is_double_examples js_def)
  have e1: "formatTime print (Finite 65) = js ''1:05''"
    by (simp add: formatTime_double is_double_examples js_def)
  have e2: "formatTime print (Finite 599) = js ''9:59''"
    by (simp add: formatTime_double is_double_examples js_def)
  from general e0 e1 e2 show ?thesis by blast
qed

text \<open>A time with a fraction: 3725.5 seconds are 62 minutes and 5 seconds.\<close>

theorem formatTime_M_SS_witness:
  "is_double 3725.5 \<and> (0::real) \<le> 3725.5 \<and> (3725.5::real) < 2 ^ 53
   \<and> formatTime (\<lambda>x. []) (Finite 3725.5) = js ''62:05''"
proof -
  have d: "is_double 3725.5" by code_simp
  have h: "(0::real) \<le> 3725.5" by simp
  have b: "(3725.5::real) < 2 ^ 53" by simp
  have f: "\<lfloor>3725.5 / 60 :: real\<rfloor> = 62" by (simp add: floor_eq_iff)
  have g: "\<lfloor>3725.5 - 60 * real 62 :: real\<rfloor> = 5" by (simp add: floor_eq_iff)
  show ?thesis
    using formatTime_M_SS [OF d h b, of "\<lambda>x. []"] d h b unfolding Let_def f
    using g by (simp add: js_def)
qed

section \<open>Proxy responses\<close>

text \<open>
  Claim C8 says that an upstream response with a non-2xx status surfaces as a generation
  error rather than a success response. A backend that answers the POST with status 500
  and a JSON body is forwarded by the proxy with status 200.
\<close>

theorem generate_proxy_forwards_upstream_500:
  "req_method post_request = js ''POST''
   \<and> up_status (upstream_500_json (generate_fetch post_request)) = 500
   \<and> res_status (generate_podcast_handler upstream_500_json post_request) = 200
   \<and> is_success (generate_podcast_handler upstream_500_json post_request)"
  by (simp add: generate_podcast_handler_def upstream_500_json_def post_request_def
      is_success_def)

text \<open>
  Claim C8, amended. For every POST to the \<open>generate_podcast\<close> proxy whose upstream
  fetch fails at the network level, and for every one whose upstream response body is not
  JSON, the proxy's result is the 500 error response and not a success response. An upstream
  response whose body is JSON is forwarded with status 200 whatever its upstream status.
\<close>

theorem generate_proxy_outcomes:
  "req_method req = js ''POST'' \<Longrightarrow>
     (upstream (generate_fetch req) = FetchRejects \<or>
      upstream (generate_fetch req) = FetchResolves st None \<longrightarrow>
        generate_podcast_handler upstream req =
          \<lparr> res_status = 500, res_headers = [],
            res_body = error_body ''Failed to generate podcast'' \<rparr>
        \<and> \<not> is_success (generate_podcast_handler upstream req))
     \<and> (upstream (generate_fetch req) = FetchResolves st (Some d) \<longrightarrow>
        generate_podcast_handler upstream req =
          \<lparr> res_status = 200, res_headers = [], res_body = JsonBody d \<rparr>
        \<and> is_success (generate_podcast_handler upstream req))"
  by (auto simp add: generate_podcast_handler_def is_success_def)

theorem generate_proxy_outcomes_witness:
  "req_method post_request = js ''POST''
   \<and> upstream_unreachable (generate_fetch post_request) = FetchRejects
   \<and> res_status (generate_podcast_handler upstream_unreachable post_request) = 500
   \<and> \<not> is_success (generate_podcast_handler upstream_unreachable post_request)
   \<and> res_body (generate_podcast_handler upstream_500_json post_request)
       = JsonBody (JObj [(js ''detail'', JStr (js ''Internal Server Error''))])"
proof -
  have p: "req_method post_request = js ''POST''" by (simp add: post_request_def)
  have u: "upstream_unreachable (generate_fetch post_request) = FetchRejects"
    by (simp add: upstream_unreachable_def)
  have v: "upstream_500_json (generate_fetch post_request) =
             FetchResolves 500 (Some (JObj [(js ''detail'', JStr (js ''Internal Server Error''))]))"
    by (simp add: upstream_500_json_def)
  show ?thesis
    using generate_proxy_outcomes [OF p, of upstream_unreachable 0 JNull]
          generate_proxy_outcomes [OF p, of upstream_500_json 500
            "JObj [(js ''detail'', JStr (js ''Internal Server Error''))]"]
          p u v
    by (simp add: is_success_def)
qed

text \<open>
  Claim C9. For every proxy request whose upstream fetch throws, the proxy responds with
  status 500 and a JSON body \<open>{ "error": message }\<close>: the POST route with the message
  \<open>Failed to generate podcast\<close>, the GET route with \<open>Failed to fetch podcast status\<close>.
\<close>

theorem proxy_fetch_failure_is_500:
  "(req_method req = js ''POST'' \<and> upstream (generate_fetch req) = FetchRejects \<longrightarrow>
      generate_podcast_handler upstream req =
        \<lparr> res_status = 500, res_headers = [],
          res_body = JsonBody (JObj [(js ''error'', JStr (js ''Failed to generate podcast''))]) \<rparr>)
   \<and> (req_method req = js ''GET'' \<and> upstream (status_fetch req) = FetchRejects \<longrightarrow>
      podcast_status_handler upstream req =
        \<lparr> res_status = 500, res_headers = [],
          res_body = JsonBody (JObj [(js ''error'', JStr (js ''Failed to fetch podcast status''))]) \<rparr>)"
  by (simp add: generate_podcast_handler_def podcast_status_handler_def error_body_def)

text \<open>\<open>GET /podcast_status/abc\<close> with the backend unreachable.\<close>

theorem proxy_fetch_failure_is_500_witness:
  "req_method get_abc = js ''GET''
   \<and> out_url (status_fetch get_abc) = js ''http://localhost:8000/podcast_status/abc''
   \<and> upstream_unreachable (status_fetch get_abc) = FetchRejects
   \<and> podcast_status_handler upstream_unreachable get_abc =
        \<lparr> res_status = 500, res_headers = [],
          res_body = JsonBody (JObj [(js ''error'', JStr (js ''Failed to fetch podcast status''))]) \<rparr>"
proof -
  have g: "req_method get_abc = js ''GET''" by (simp add: get_abc_def)
  have u: "upstream_unreachable (status_fetch get_abc) = FetchRejects"
    by (simp add: upstream_unreachable_def)
  have url: "out_url (status_fetch get_abc) = js ''http://localhost:8000/podcast_status/abc''"
    by (simp add: status_fetch_def get_abc_def js_def)
  show ?thesis
    using proxy_fetch_failure_is_500 [of get_abc upstream_unreachable] g u url by simp
qed

end
